theory Spec2Isabelle
  imports Complex_Main "HOL-Library.Word"
begin

unbundle bit_operations_syntax

section \<open>PieZense: a shallow embedding of \<^verbatim>\<open>src/piezense/piezense.py\<close>\<close>

subsection \<open>Python list objects on a heap\<close>

text \<open>
  \<^verbatim>\<open>self._pressures\<close> is a Python list of lists, and \<^verbatim>\<open>getPressureReadings\<close> hands the
  very list object to its caller. Lists are therefore objects on a heap, named by
  their address; a heap is the sequence of the objects allocated so far, and the
  address of an object is its position.
\<close>

type_synonym addr = nat

datatype obj = IntList "int list" | RefList "addr list"

type_synonym heap = "obj list"

definition alloc :: "heap \<Rightarrow> obj \<Rightarrow> addr \<times> heap" where
  "alloc h ob = (length h, h @ [ob])"

definition lookup :: "heap \<Rightarrow> addr \<Rightarrow> obj option" where
  "lookup h a = (if a < length h then Some (h ! a) else None)"

text \<open>\<^verbatim>\<open>lst.append(x)\<close> on the list of references at address \<open>a\<close>.\<close>

definition list_append :: "heap \<Rightarrow> addr \<Rightarrow> addr \<Rightarrow> heap" where
  "list_append h a x =
     (case lookup h a of
        Some (RefList as) \<Rightarrow> h[a := RefList (as @ [x])]
      | _ \<Rightarrow> h)"

text \<open>
  \<^verbatim>\<open>rows[i][j] = v\<close> as a caller holding the reference \<open>a\<close> writes it: Python raises
  IndexError (here \<open>None\<close>) when an index is out of range; indices are taken
  non-negative.
\<close>

definition rows_setitem :: "heap \<Rightarrow> addr \<Rightarrow> nat \<Rightarrow> nat \<Rightarrow> int \<Rightarrow> heap option" where
  "rows_setitem h a i j v =
     (case lookup h a of
        Some (RefList as) \<Rightarrow>
          (if i < length as then
             (case lookup h (as ! i) of
                Some (IntList xs) \<Rightarrow>
                  (if j < length xs then Some (h[as ! i := IntList (xs[j := v])]) else None)
              | _ \<Rightarrow> None)
           else None)
      | _ \<Rightarrow> None)"

text \<open>The value a holder of a reference sees: the list of lists behind address \<open>a\<close>.\<close>

definition row_of :: "heap \<Rightarrow> addr \<Rightarrow> int list option" where
  "row_of h a = (case lookup h a of Some (IntList xs) \<Rightarrow> Some xs | _ \<Rightarrow> None)"

fun rows_at :: "heap \<Rightarrow> addr list \<Rightarrow> int list list option" where
  "rows_at h [] = Some []"
| "rows_at h (a # as) =
     (case row_of h a of
        None \<Rightarrow> None
      | Some r \<Rightarrow> (case rows_at h as of None \<Rightarrow> None | Some rs \<Rightarrow> Some (r # rs)))"

definition rows_of :: "heap \<Rightarrow> addr \<Rightarrow> int list list option" where
  "rows_of h a = (case lookup h a of Some (RefList as) \<Rightarrow> rows_at h as | _ \<Rightarrow> None)"

subsection \<open>The object state\<close>

text \<open>
  A \<^verbatim>\<open>bleak.BleakClient\<close>, as far as the library looks at it: its \<^verbatim>\<open>is_connected\<close>
  property. \<^verbatim>\<open>system.client\<close> is \<^verbatim>\<open>None\<close> or such an object.
\<close>

record bleak_client =
  is_connected :: bool

record system =
  system_name :: string
  channel_count :: int
  client :: "bleak_client option"

text \<open>
  The fields of a \<^verbatim>\<open>PieZense\<close> instance (without the leading underscore of the
  source), together with the heap its list of readings lives on. \<^verbatim>\<open>_systems\<close> never
  leaves the object and is kept as a value; \<^verbatim>\<open>_pressures\<close> is a reference.
\<close>

record state =
  heap :: heap
  scale_factor :: real
  systems :: "system list"
  reconnect_task :: "unit option"
  pressures :: addr

definition PieZense_init :: "real \<Rightarrow> state" where
  "PieZense_init sf =
     (let (a, h) = alloc [] (RefList [])
      in \<lparr>heap = h, scale_factor = sf, systems = [], reconnect_task = None, pressures = a\<rparr>)"

subsection \<open>Errors\<close>

text \<open>
  \<open>OverflowError\<close> and \<open>MemoryError\<close> are Python's. \<open>TransportFailure\<close> stands for an
  exception of the \<^verbatim>\<open>bleak\<close> library propagating out of a call. \<open>CycleRejected\<close> is
  the condition the specification names for a forwarding rule that would close a
  cycle; no line of the source raises it.
\<close>

datatype error = OverflowError | MemoryError | TransportFailure | CycleRejected

subsection \<open>Registration\<close>

text \<open>
  What the interpreter and the machine under it allow: \<open>ssize_max\<close> is the largest
  index-sized integer (\<^verbatim>\<open>sys.maxsize\<close>), \<open>alloc_max\<close> the longest list the allocator
  grants.
\<close>

record machine =
  ssize_max :: int
  alloc_max :: nat

text \<open>
  \<^verbatim>\<open>[0]*n\<close>: a count that is no index-sized integer raises \<open>OverflowError\<close>; a count
  that is not positive gives the empty list; a list too long to allocate raises
  \<open>MemoryError\<close>.
\<close>

definition zeros :: "machine \<Rightarrow> int \<Rightarrow> error + int list" where
  "zeros mc n =
     (if n < - ssize_max mc - 1 \<or> ssize_max mc < n then Inl OverflowError
      else if n \<le> 0 then Inr []
      else if alloc_max mc < nat n then Inl MemoryError
      else Inr (replicate (nat n) 0))"

text \<open>
  \<^verbatim>\<open>_addSystem\<close>: append a \<^verbatim>\<open>_System\<close>; build the list \<^verbatim>\<open>[0]*channel_count\<close>, which may
  raise, the system being appended already; append the list to \<^verbatim>\<open>self._pressures\<close>;
  return \<^verbatim>\<open>len(self._systems) - 1\<close>.
\<close>

definition addSystem_inner :: "machine \<Rightarrow> string \<Rightarrow> int \<Rightarrow> state \<Rightarrow> (error + int) \<times> state" where
  "addSystem_inner mc name c st =
     (let syss = systems st @ [\<lparr>system_name = name, channel_count = c, client = None\<rparr>];
          st1 = st\<lparr>systems := syss\<rparr>
      in case zeros mc c of
           Inl e \<Rightarrow> (Inl e, st1)
         | Inr row \<Rightarrow>
             (let (a, h1) = alloc (heap st1) (IntList row);
                  h2 = list_append h1 (pressures st1) a
              in (Inr (int (length syss) - 1), st1\<lparr>heap := h2\<rparr>)))"

definition addSystem :: "machine \<Rightarrow> string \<Rightarrow> int \<Rightarrow> state \<Rightarrow> (error + int) \<times> state" where
  "addSystem mc name c st = addSystem_inner mc name c st"

subsection \<open>Connectivity query\<close>

text \<open>
  \<^verbatim>\<open>all((system.client and system.client.is_connected) for system in self._systems)\<close>:
  \<^verbatim>\<open>None\<close> is falsy, a client object is truthy.
\<close>

definition isEverythingConnected :: "state \<Rightarrow> bool" where
  "isEverythingConnected st =
     list_all (\<lambda>s. case client s of None \<Rightarrow> False | Some c \<Rightarrow> is_connected c) (systems st)"

subsection \<open>Reading\<close>

text \<open>\<^verbatim>\<open>return self._pressures\<close>: the reference itself.\<close>

definition getPressureReadings :: "state \<Rightarrow> addr" where
  "getPressureReadings st = pressures st"

subsection \<open>Outcomes\<close>

text \<open>
  What a method call leaves behind: the exception it raised, if any, and the state
  after it.
\<close>

record outcome =
  raised :: "error option"
  after :: state

text \<open>A method whose body is \<^verbatim>\<open>pass\<close>: it returns \<^verbatim>\<open>None\<close> and touches nothing.\<close>

definition pass :: "state \<Rightarrow> outcome" where
  "pass st = \<lparr>raised = None, after = st\<rparr>"

subsection \<open>The reconnect loop\<close>

text \<open>
  The \<^verbatim>\<open>bleak\<close> calls are the outside world. What they answer is a parameter: at tick
  \<open>t\<close>, scanning for a name finds a device, finds none, or raises; connecting to it
  leaves \<^verbatim>\<open>is_connected\<close> true, leaves it false, or raises.
\<close>

datatype scan_result = NoDevice | FoundDevice | ScanRaises

datatype connect_result = LinkUp | LinkDown | ConnectRaises

record transport =
  find_device_by_name :: "nat \<Rightarrow> string \<Rightarrow> scan_result"
  client_connect :: "nat \<Rightarrow> string \<Rightarrow> connect_result"

text \<open>The body of the \<^verbatim>\<open>for\<close> loop of \<^verbatim>\<open>_connect\<close> for one system, up to the sleep.\<close>

definition connect_system :: "transport \<Rightarrow> nat \<Rightarrow> system \<Rightarrow> error option \<times> system" where
  "connect_system env t sys =
     (if (case client sys of None \<Rightarrow> True | Some c \<Rightarrow> \<not> is_connected c) then
        (case find_device_by_name env t (system_name sys) of
           ScanRaises \<Rightarrow> (Some TransportFailure, sys)
         | NoDevice \<Rightarrow> (None, sys)
         | FoundDevice \<Rightarrow>
             (case client_connect env t (system_name sys) of
                ConnectRaises \<Rightarrow>
                  (Some TransportFailure, sys\<lparr>client := Some \<lparr>is_connected = False\<rparr>\<rparr>)
              | LinkUp \<Rightarrow> (None, sys\<lparr>client := Some \<lparr>is_connected = True\<rparr>\<rparr>)
              | LinkDown \<Rightarrow> (None, sys\<lparr>client := None\<rparr>)))
      else (None, sys))"

text \<open>
  One run of the \<^verbatim>\<open>for\<close> loop over \<^verbatim>\<open>self._systems\<close>; each system is followed by
  \<^verbatim>\<open>await asyncio.sleep(10)\<close>, one tick. An exception leaves the loop with the systems
  as mutated so far.
\<close>

fun connect_pass :: "transport \<Rightarrow> nat \<Rightarrow> system list \<Rightarrow> error option \<times> nat \<times> system list" where
  "connect_pass env t [] = (None, t, [])"
| "connect_pass env t (s # ss) =
     (case connect_system env t s of
        (Some e, s') \<Rightarrow> (Some e, t, s' # ss)
      | (None, s') \<Rightarrow>
          (case connect_pass env (Suc t) ss of (r, t', ss') \<Rightarrow> (r, t', s' # ss')))"

text \<open>
  \<^verbatim>\<open>_connect\<close>: \<^verbatim>\<open>while(True)\<close> around the \<^verbatim>\<open>for\<close> loop, with no \<^verbatim>\<open>break\<close> and no
  \<^verbatim>\<open>return\<close>. Not returning is the value \<open>None\<close>.
\<close>

partial_function (option) connect_loop :: "transport \<Rightarrow> nat \<Rightarrow> state \<Rightarrow> outcome option" where
  "connect_loop env t st =
     (case connect_pass env t (systems st) of
        (Some e, t', ss) \<Rightarrow> Some \<lparr>raised = Some e, after = st\<lparr>systems := ss\<rparr>\<rparr>
      | (None, t', ss) \<Rightarrow> connect_loop env t' (st\<lparr>systems := ss\<rparr>))"

text \<open>
  \<^verbatim>\<open>self._reconnect_task = asyncio.run(self._connect())\<close>: \<^verbatim>\<open>asyncio.run\<close> runs the
  coroutine to its end and hands back what it returned; an exception propagates
  before the assignment.
\<close>

definition connect :: "transport \<Rightarrow> state \<Rightarrow> outcome option" where
  "connect env st =
     (case connect_loop env 0 st of
        None \<Rightarrow> None
      | Some out \<Rightarrow>
          (case raised out of
             Some e \<Rightarrow> Some out
           | None \<Rightarrow> Some (out\<lparr>after := (after out)\<lparr>reconnect_task := None\<rparr>\<rparr>)))"

subsection \<open>The methods without a body\<close>

type_synonym config_data = "string \<rightharpoonup> real"
type_synonym config_entry = "int \<times> int \<times> config_data"
type_synonym setpoint_entry = "int \<times> int \<times> real"
type_synonym forwarding_entry = "int \<times> int \<times> int \<times> int \<times> (real \<Rightarrow> real)"

definition sendSetpoint :: "int \<Rightarrow> int \<Rightarrow> real \<Rightarrow> state \<Rightarrow> outcome" where
  "sendSetpoint system_num channel_num setpoint st = pass st"

definition sendSetpointBatch :: "setpoint_entry list \<Rightarrow> state \<Rightarrow> outcome" where
  "sendSetpointBatch setpoint_batch st = pass st"

definition setCallback :: "(int \<Rightarrow> int list \<Rightarrow> unit) \<Rightarrow> state \<Rightarrow> outcome" where
  "setCallback callback_function st = pass st"

definition addForwarding ::
  "int \<Rightarrow> int \<Rightarrow> int \<Rightarrow> int \<Rightarrow> (real \<Rightarrow> real) \<Rightarrow> state \<Rightarrow> outcome" where
  "addForwarding source_system_num source_channel_num target_system_num target_channel_num
     forwarding_function st = pass st"

definition addForwardingBatch :: "forwarding_entry list \<Rightarrow> state \<Rightarrow> outcome" where
  "addForwardingBatch forwarding_batch st = pass st"

definition stopForwarding :: "int \<Rightarrow> int \<Rightarrow> int \<Rightarrow> int \<Rightarrow> state \<Rightarrow> outcome" where
  "stopForwarding source_system_num source_channel_num target_system_num target_channel_num st =
     pass st"

definition clearAllForwarding :: "state \<Rightarrow> outcome" where
  "clearAllForwarding st = pass st"

definition sendConfig :: "int \<Rightarrow> int \<Rightarrow> config_data \<Rightarrow> state \<Rightarrow> outcome" where
  "sendConfig system_num channel_num config_data st = pass st"

definition sendConfigBatch :: "config_entry list \<Rightarrow> state \<Rightarrow> outcome" where
  "sendConfigBatch config_data_batch st = pass st"

subsection \<open>Mode changes\<close>

text \<open>
  The mode dictionary with the keys the docstring of \<^verbatim>\<open>setMode\<close> lists, each with a
  value of its type.
\<close>

record mode =
  reset_config :: "config_entry list"
  setpoints :: "setpoint_entry list"
  wait_time :: real
  forwarding :: "forwarding_entry list"
  final_config :: "config_entry list"

text \<open>
  What a method body does besides changing fields: the calls it makes to the other
  methods of the object and the waits, in the order it makes them.
\<close>

datatype call =
    ClearAllForwarding
  | SendConfig config_entry
  | Wait real
  | AddForwarding forwarding_entry

text \<open>\<^verbatim>\<open>setMode\<close>: the body is \<^verbatim>\<open>pass\<close>, so it makes no call and no wait.\<close>

definition setMode :: "mode \<Rightarrow> state \<Rightarrow> call list \<times> outcome" where
  "setMode m st = ([], pass st)"

text \<open>
  The five steps as the docstring of \<^verbatim>\<open>setMode\<close> and section 4.5 of the specification
  list them, for comparison with what the body does.
\<close>

definition five_steps :: "mode \<Rightarrow> call list" where
  "five_steps m =
     [ClearAllForwarding] @ map SendConfig (reset_config m) @ [Wait (wait_time m)]
       @ map AddForwarding (forwarding m) @ map SendConfig (final_config m)"

subsection \<open>Every public operation\<close>

datatype operation =
    Op_addSystem string int
  | Op_connect_pass transport nat
  | Op_isEverythingConnected
  | Op_sendSetpoint int int real
  | Op_sendSetpointBatch "setpoint_entry list"
  | Op_getPressureReadings
  | Op_setCallback "int \<Rightarrow> int list \<Rightarrow> unit"
  | Op_addForwarding int int int int "real \<Rightarrow> real"
  | Op_addForwardingBatch "forwarding_entry list"
  | Op_stopForwarding int int int int
  | Op_clearAllForwarding
  | Op_sendConfig int int config_data
  | Op_sendConfigBatch "config_entry list"
  | Op_setMode mode

text \<open>
  What an operation raises, if anything, and the state it leaves. \<^verbatim>\<open>connect\<close> has no
  state after it (it does not return); its place is taken by one run of the loop it
  is caught in.
\<close>

fun exec :: "machine \<Rightarrow> operation \<Rightarrow> state \<Rightarrow> error option \<times> state" where
  "exec mc (Op_addSystem name c) st =
     (case addSystem mc name c st of
        (Inl e, st') \<Rightarrow> (Some e, st')
      | (Inr i, st') \<Rightarrow> (None, st'))"
| "exec mc (Op_connect_pass env t) st =
     (case connect_pass env t (systems st) of
        (r, t', ss) \<Rightarrow> (r, st\<lparr>systems := ss\<rparr>))"
| "exec mc Op_isEverythingConnected st = (None, st)"
| "exec mc (Op_sendSetpoint a b v) st =
     (raised (sendSetpoint a b v st), after (sendSetpoint a b v st))"
| "exec mc (Op_sendSetpointBatch xs) st =
     (raised (sendSetpointBatch xs st), after (sendSetpointBatch xs st))"
| "exec mc Op_getPressureReadings st = (None, st)"
| "exec mc (Op_setCallback f) st = (raised (setCallback f st), after (setCallback f st))"
| "exec mc (Op_addForwarding a b c d f) st =
     (raised (addForwarding a b c d f st), after (addForwarding a b c d f st))"
| "exec mc (Op_addForwardingBatch xs) st =
     (raised (addForwardingBatch xs st), after (addForwardingBatch xs st))"
| "exec mc (Op_stopForwarding a b c d) st =
     (raised (stopForwarding a b c d st), after (stopForwarding a b c d st))"
| "exec mc Op_clearAllForwarding st =
     (raised (clearAllForwarding st), after (clearAllForwarding st))"
| "exec mc (Op_sendConfig a b d) st =
     (raised (sendConfig a b d st), after (sendConfig a b d st))"
| "exec mc (Op_sendConfigBatch xs) st =
     (raised (sendConfigBatch xs st), after (sendConfigBatch xs st))"
| "exec mc (Op_setMode md) st =
     (raised (snd (setMode md st)), after (snd (setMode md st)))"

text \<open>
  A run of registrations by a caller that goes on after an exception, with what each
  call returned or raised.
\<close>

fun addSystems :: "machine \<Rightarrow> (string \<times> int) list \<Rightarrow> state \<Rightarrow> (error + int) list \<times> state" where
  "addSystems mc [] st = ([], st)"
| "addSystems mc ((name, c) # rest) st =
     (case addSystem mc name c st of
        (r, st') \<Rightarrow> (case addSystems mc rest st' of (rs, st'') \<Rightarrow> (r # rs, st'')))"

subsection \<open>Telemetry decode\<close>

text \<open>
  Modelled from the spec: the Telemetry Codec's decode (section 4.2). The source has
  no decoder: its only trace is the commented-out \<^verbatim>\<open>notification_handler\<close> at the end
  of the file. A reading is \<open>(high << 8) | low\<close>, as there.
\<close>

definition le_u16 :: "8 word \<Rightarrow> 8 word \<Rightarrow> 16 word" where
  "le_u16 low high = push_bit 8 (ucast high) OR ucast low"

text \<open>
  Modelled from the spec: the complete 2-byte pairs of a byte sequence, in order; a
  last odd byte gives no reading.
\<close>

fun pairs :: "8 word list \<Rightarrow> 16 word list" where
  "pairs (low # high # rest) = le_u16 low high # pairs rest"
| "pairs _ = []"

datatype condition = TruncatedFrame

record decoded =
  readings :: "16 word list"
  signal :: "condition option"

text \<open>
  Modelled from the spec: decode of a payload for a device of \<open>count\<close> channels
  (section 4.2): the first \<open>count * 2\<close> bytes are the readings, bytes
  beyond them are ignored, and a payload shorter than that gives the complete pairs
  present and the \<open>TruncatedFrame\<close> condition.
\<close>

definition decode :: "nat \<Rightarrow> 8 word list \<Rightarrow> decoded" where
  "decode count payload =
     \<lparr>readings = pairs (take (count * 2) payload),
      signal = (if length payload < count * 2 then Some TruncatedFrame else None)\<rparr>"

subsection \<open>Properties and example states\<close>

text \<open>
  The registry invariant: the list of readings has one row per registered system, in
  order, and row \<open>i\<close> is as many zeros as the channel count of system \<open>i\<close> says
  (none when the count is negative).
\<close>

definition store_inv :: "state \<Rightarrow> bool" where
  "store_inv st \<longleftrightarrow>
     rows_of (heap st) (pressures st) =
       Some (map (\<lambda>s. replicate (nat (channel_count s)) 0) (systems st))"

text \<open>
  The readings section 6 of the specification promises to callers: every stored raw
  value multiplied by the scale factor.
\<close>

definition scaled_rows :: "real \<Rightarrow> int list list \<Rightarrow> real list list" where
  "scaled_rows s rows = map (map (\<lambda>v. s * real_of_int v)) rows"

text \<open>
  A 64-bit interpreter: \<^verbatim>\<open>sys.maxsize\<close> is \<open>2^63 - 1\<close>, and no list of more than
  \<open>2^60 - 1\<close> references can be allocated.
\<close>

definition cpython64 :: machine where
  "cpython64 = \<lparr>ssize_max = 9223372036854775807, alloc_max = 1152921504606846975\<rparr>"

text \<open>A library configured for pascal (scale factor 100) with one registered system.\<close>

definition pod_a :: state where
  "pod_a = snd (addSystem cpython64 ''Pod-A'' 2 (PieZense_init 100))"

definition two_pods :: state where
  "two_pods = snd (addSystem cpython64 ''Pod-B'' 1 pod_a)"

text \<open>The same library after its caller wrote \<^verbatim>\<open>getPressureReadings()[0][0] = 997\<close>.\<close>

definition pod_a_written :: state where
  "pod_a_written =
     (case rows_setitem (heap pod_a) (getPressureReadings pod_a) 0 0 997 of
        Some h \<Rightarrow> pod_a\<lparr>heap := h\<rparr>
      | None \<Rightarrow> pod_a)"

text \<open>A registration with a negative channel count, and one with the count \<open>-2^70\<close>.\<close>

definition neg_pod :: state where
  "neg_pod = snd (addSystem cpython64 ''Pod-A'' (- 1) (PieZense_init 1))"

definition big_pod :: "(error + int) \<times> state" where
  "big_pod = addSystem cpython64 ''Big'' (- 1180591620717411303424) (PieZense_init 1)"

text \<open>A world in which no device is ever found, and one in which every device links up.\<close>

definition quiet :: transport where
  "quiet = \<lparr>find_device_by_name = (\<lambda>t name. NoDevice), client_connect = (\<lambda>t name. LinkDown)\<rparr>"

definition friendly :: transport where
  "friendly =
     \<lparr>find_device_by_name = (\<lambda>t name. FoundDevice), client_connect = (\<lambda>t name. LinkUp)\<rparr>"

definition linked_pods :: state where
  "linked_pods = snd (exec cpython64 (Op_connect_pass friendly 0) two_pods)"

definition example_mode :: mode where
  "example_mode =
     \<lparr>reset_config = [(0, 0, [''set_act_mode'' \<mapsto> 1])], setpoints = [], wait_time = 0,
      forwarding = [(0, 0, 1, 0, (\<lambda>x. 2 * x))], final_config = [(0, 0, [''set_act_mode'' \<mapsto> 0])]\<rparr>"

section \<open>Lemmas\<close>

subsection \<open>The heap\<close>

lemma row_of_Some: "row_of h a = Some r \<longleftrightarrow> a < length h \<and> h ! a = IntList r"
  by (auto simp: row_of_def lookup_def split: obj.splits if_splits)

lemma rows_of_Some:
  "rows_of h p = Some rows \<longleftrightarrow>
     (\<exists>as. p < length h \<and> h ! p = RefList as \<and> rows_at h as = Some rows)"
  by (auto simp: rows_of_def lookup_def split: obj.splits if_splits)

lemma rows_at_append:
  "rows_at h (as @ bs) =
     (case rows_at h as of
        None \<Rightarrow> None
      | Some rs \<Rightarrow> (case rows_at h bs of None \<Rightarrow> None | Some rs' \<Rightarrow> Some (rs @ rs')))"
  by (induction as) (auto split: option.splits)

lemma rows_at_cong:
  "(\<And>a. a \<in> set as \<Longrightarrow> row_of h' a = row_of h a) \<Longrightarrow> rows_at h' as = rows_at h as"
  by (induction as) (auto split: option.splits)

lemma rows_at_Some_row:
  "rows_at h as = Some rows \<Longrightarrow> a \<in> set as \<Longrightarrow> \<exists>r. row_of h a = Some r"
  by (induction as arbitrary: rows) (auto split: option.splits)

lemma rows_at_list_all2:
  "rows_at h as = Some rows \<longleftrightarrow> list_all2 (\<lambda>a r. row_of h a = Some r) as rows"
proof (induction as arbitrary: rows)
  case Nil
  show ?case by auto
next
  case (Cons a as)
  show ?case by (cases rows) (auto simp: Cons.IH[symmetric] split: option.splits)
qed

subsection \<open>Registration\<close>

lemma zeros_Inr: "zeros mc c = Inr row \<Longrightarrow> row = replicate (nat c) 0"
  by (auto simp: zeros_def split: if_splits)

lemma zeros_returns:
  "\<not> isl (zeros mc c) \<longleftrightarrow>
     - ssize_max mc - 1 \<le> c \<and> c \<le> ssize_max mc \<and> (0 < c \<longrightarrow> nat c \<le> alloc_max mc)"
  by (auto simp: zeros_def)

lemma addSystem_fields:
  "systems (snd (addSystem mc name c st)) =
     systems st @ [\<lparr>system_name = name, channel_count = c, client = None\<rparr>]"
  "pressures (snd (addSystem mc name c st)) = pressures st"
  "scale_factor (snd (addSystem mc name c st)) = scale_factor st"
  by (simp_all add: addSystem_def addSystem_inner_def alloc_def Let_def split: sum.splits)

lemma addSystem_result:
  "fst (addSystem mc name c st) =
     (case zeros mc c of Inl e \<Rightarrow> Inl e | Inr row \<Rightarrow> Inr (int (length (systems st))))"
  by (simp add: addSystem_def addSystem_inner_def alloc_def Let_def split: sum.splits)

lemma addSystem_returns: "\<not> isl (fst (addSystem mc name c st)) \<longleftrightarrow> \<not> isl (zeros mc c)"
  by (simp add: addSystem_result split: sum.splits)

lemma addSystem_raised_heap:
  "isl (fst (addSystem mc name c st)) \<Longrightarrow> heap (snd (addSystem mc name c st)) = heap st"
  by (simp add: addSystem_def addSystem_inner_def alloc_def Let_def split: sum.splits)

lemma addSystem_rows:
  assumes "rows_of (heap st) (pressures st) = Some rows"
    and ret: "\<not> isl (fst (addSystem mc name c st))"
  shows "rows_of (heap (snd (addSystem mc name c st))) (pressures st) =
           Some (rows @ [replicate (nat c) 0])"
proof -
  from assms obtain as where p: "pressures st < length (heap st)"
    and hp: "heap st ! pressures st = RefList as" and ra: "rows_at (heap st) as = Some rows"
    by (auto simp: rows_of_Some)
  let ?h = "heap st" and ?p = "pressures st"
  let ?r = "replicate (nat c) (0::int)"
  let ?h2 = "(?h @ [IntList ?r])[?p := RefList (as @ [length ?h])]"
  from ret obtain row where "zeros mc c = Inr row"
    by (cases "zeros mc c") (simp_all add: addSystem_returns)
  then have z: "zeros mc c = Inr ?r" using zeros_Inr by blast
  have h2: "heap (snd (addSystem mc name c st)) = ?h2"
    using p hp
    by (simp add: addSystem_def addSystem_inner_def z alloc_def list_append_def lookup_def
        nth_append)
  have old: "row_of ?h2 a = row_of ?h a" if "a \<in> set as" for a
  proof -
    from rows_at_Some_row[OF ra that] obtain r where "row_of ?h a = Some r" by blast
    then have "a < length ?h" "?h ! a = IntList r" by (auto simp: row_of_Some)
    with hp have "a \<noteq> ?p" by auto
    with \<open>a < length ?h\<close> show ?thesis by (simp add: row_of_def lookup_def nth_append)
  qed
  have new: "row_of ?h2 (length ?h) = Some ?r"
    using p by (simp add: row_of_def lookup_def)
  have "rows_at ?h2 as = Some rows" using rows_at_cong[of as ?h2 ?h] old ra by simp
  then have "rows_at ?h2 (as @ [length ?h]) = Some (rows @ [?r])"
    using new by (simp add: rows_at_append)
  moreover have "?p < length ?h2" "?h2 ! ?p = RefList (as @ [length ?h])" using p by simp_all
  ultimately show ?thesis unfolding h2 by (simp add: rows_of_Some)
qed

lemma store_inv_addSystem:
  "store_inv st \<Longrightarrow> \<not> isl (fst (addSystem mc name c st)) \<Longrightarrow>
     store_inv (snd (addSystem mc name c st))"
  using addSystem_rows[of st _ mc name c]
  by (simp add: store_inv_def addSystem_fields)

lemma addSystems_run:
  "rows_of (heap st) (pressures st) = Some rows \<Longrightarrow>
   list_all (\<lambda>r. \<not> isl r) (fst (addSystems mc regs st)) \<Longrightarrow>
     fst (addSystems mc regs st) =
       map (\<lambda>i. Inr (int i)) [length (systems st)..<length (systems st) + length regs]
     \<and> map channel_count (systems (snd (addSystems mc regs st))) =
         map channel_count (systems st) @ map snd regs
     \<and> pressures (snd (addSystems mc regs st)) = pressures st
     \<and> rows_of (heap (snd (addSystems mc regs st))) (pressures st) =
         Some (rows @ map (\<lambda>(name, c). replicate (nat c) 0) regs)"
proof (induction regs arbitrary: st rows)
  case Nil
  then show ?case by simp
next
  case (Cons reg regs)
  obtain name c where reg: "reg = (name, c)" by (cases reg)
  let ?st = "snd (addSystem mc name c st)"
  have unfold: "addSystems mc (reg # regs) st =
      (fst (addSystem mc name c st) # fst (addSystems mc regs ?st),
       snd (addSystems mc regs ?st))"
    by (simp add: reg split: prod.splits)
  from Cons.prems(2) have ret: "\<not> isl (fst (addSystem mc name c st))"
    and rest: "list_all (\<lambda>r. \<not> isl r) (fst (addSystems mc regs ?st))"
    by (simp_all add: unfold)
  from ret have res: "fst (addSystem mc name c st) = Inr (int (length (systems st)))"
    by (simp add: addSystem_result split: sum.splits)
  have step: "rows_of (heap ?st) (pressures ?st) = Some (rows @ [replicate (nat c) 0])"
    using addSystem_rows[OF Cons.prems(1) ret] by (simp add: addSystem_fields)
  have "[length (systems st)..<length (systems st) + Suc (length regs)] =
      length (systems st) # [Suc (length (systems st))..<length (systems st) + Suc (length regs)]"
    by (rule upt_conv_Cons) simp
  then have upt: "[length (systems st)..<length (systems st) + length (reg # regs)] =
      length (systems st) # [Suc (length (systems st))..<Suc (length (systems st)) + length regs]"
    by (simp del: upt_Suc)
  have ih: "fst (addSystems mc regs ?st) =
        map (\<lambda>i. Inr (int i)) [Suc (length (systems st))..<Suc (length (systems st)) + length regs]
     \<and> map channel_count (systems (snd (addSystems mc regs ?st))) =
         (map channel_count (systems st) @ [c]) @ map snd regs
     \<and> pressures (snd (addSystems mc regs ?st)) = pressures st
     \<and> rows_of (heap (snd (addSystems mc regs ?st))) (pressures st) =
         Some ((rows @ [replicate (nat c) 0]) @ map (\<lambda>(name, c). replicate (nat c) 0) regs)"
    using Cons.IH[OF step rest] by (simp add: addSystem_fields del: upt_Suc)
  show ?case
    unfolding unfold upt fst_conv snd_conv
    using ih by (simp add: res reg del: upt_Suc)
qed

subsection \<open>The reconnect loop\<close>

lemma connect_system_keeps: "channel_count (snd (connect_system env t s)) = channel_count s"
  by (simp add: connect_system_def split: scan_result.splits connect_result.splits)

lemma connect_pass_keeps:
  "map channel_count (snd (snd (connect_pass env t ss))) = map channel_count ss"
proof (induction ss arbitrary: t)
  case Nil
  show ?case by simp
next
  case (Cons a ss)
  obtain e s' where cs: "connect_system env t a = (e, s')" by (cases "connect_system env t a")
  obtain r t' ss' where cp: "connect_pass env (Suc t) ss = (r, t', ss')"
    by (cases "connect_pass env (Suc t) ss")
  have 1: "channel_count s' = channel_count a" using connect_system_keeps[of env t a] cs by simp
  have 2: "map channel_count ss' = map channel_count ss" using Cons.IH[of "Suc t"] cp by simp
  show ?case by (cases e) (simp_all add: cs cp 1 2)
qed

lemma store_inv_exec:
  assumes inv: "store_inv st"
    and ok: "fst (exec mc op st) = None \<or> (\<forall>name c. op \<noteq> Op_addSystem name c)"
  shows "store_inv (snd (exec mc op st))"
proof (cases op)
  case (Op_addSystem n c)
  with ok have "fst (exec mc (Op_addSystem n c) st) = None" by simp
  then have ret: "\<not> isl (fst (addSystem mc n c st))"
    by (cases "addSystem mc n c st") (auto split: sum.splits)
  have "snd (exec mc (Op_addSystem n c) st) = snd (addSystem mc n c st)"
    by (cases "addSystem mc n c st") (auto split: sum.splits)
  then show ?thesis using Op_addSystem store_inv_addSystem[OF inv ret] by simp
next
  case (Op_connect_pass env t)
  let ?ss = "snd (snd (connect_pass env t (systems st)))"
  have ex: "snd (exec mc (Op_connect_pass env t) st) = st\<lparr>systems := ?ss\<rparr>"
    by (simp split: prod.splits)
  have "map (\<lambda>s. replicate (nat (channel_count s)) (0::int)) ?ss =
      map (\<lambda>c. replicate (nat c) 0) (map channel_count ?ss)"
    by (simp add: comp_def)
  also have "\<dots> = map (\<lambda>s. replicate (nat (channel_count s)) (0::int)) (systems st)"
    by (simp add: connect_pass_keeps comp_def)
  finally show ?thesis using inv Op_connect_pass by (simp only: ex) (simp add: store_inv_def)
qed (use inv in \<open>simp_all add: pass_def sendSetpoint_def sendSetpointBatch_def setCallback_def
      addForwarding_def addForwardingBatch_def stopForwarding_def clearAllForwarding_def
      sendConfig_def sendConfigBatch_def setMode_def\<close>)

lemma connect_loop_raises: "connect_loop env t st = Some out \<Longrightarrow> raised out \<noteq> None"
  by (rule connect_loop.raw_induct[where P = "\<lambda>env t st out. raised out \<noteq> None"])
     (auto split: prod.splits option.splits)

lemma connect_pass_quiet: "fst (connect_pass quiet t ss) = None"
proof (induction ss arbitrary: t)
  case Nil
  show ?case by simp
next
  case (Cons s ss)
  have cs: "connect_system quiet t s = (None, s)"
    by (simp add: connect_system_def quiet_def split: option.splits)
  obtain r t' ss' where cp: "connect_pass quiet (Suc t) ss = (r, t', ss')"
    by (cases "connect_pass quiet (Suc t) ss")
  have "r = None" using Cons.IH[of "Suc t"] cp by simp
  then show ?case by (simp add: cs cp)
qed

lemma connect_loop_quiet: "connect_loop env t st = Some out \<Longrightarrow> env \<noteq> quiet"
proof (rule connect_loop.raw_induct[where P = "\<lambda>env t st out. env \<noteq> quiet"])
  fix loop env t st out
  assume "(case connect_pass env t (systems st) of
             (Some e, t', ss) \<Rightarrow> Some \<lparr>raised = Some e, after = st\<lparr>systems := ss\<rparr>\<rparr>
           | (None, t', ss) \<Rightarrow> loop env t' (st\<lparr>systems := ss\<rparr>)) = Some out"
    and "\<And>env t st out. loop env t st = Some out \<Longrightarrow> env \<noteq> quiet"
  then show "env \<noteq> quiet"
    using connect_pass_quiet[of t "systems st"]
    by (auto split: prod.splits option.splits)
qed

subsection \<open>Little-endian readings\<close>

lemma le_u16_add: "le_u16 lo hi = push_bit 8 (ucast hi) + ucast lo"
proof -
  have "push_bit 8 (ucast hi :: 16 word) + ucast lo = push_bit 8 (ucast hi) OR ucast lo"
    by (rule disjunctive_add_eq_or, rule bit_eqI)
       (auto simp: bit_simps dest: bit_imp_le_length)
  then show ?thesis by (simp add: le_u16_def)
qed

lemma unat_lt_256: "unat (w :: 8 word) < 256"
  using unsigned_less[of w, where ?'a = nat] by simp

lemma le_u16_unat: "unat (le_u16 lo hi) = unat lo + 256 * unat hi"
proof -
  have a: "unat (ucast lo :: 16 word) = unat lo"
    using unat_lt_256[of lo] by (simp add: unsigned_ucast_eq take_bit_nat_eq_self)
  have b: "unat (ucast hi :: 16 word) = unat hi"
    using unat_lt_256[of hi] by (simp add: unsigned_ucast_eq take_bit_nat_eq_self)
  have "unat (ucast hi :: 16 word) * unat (256 :: 16 word) < 2 ^ LENGTH(16)"
    using unat_lt_256[of hi] by (simp add: b)
  then have "unat ((ucast hi :: 16 word) * 256) =
      unat (ucast hi :: 16 word) * unat (256 :: 16 word)"
    by (simp only: unat_mult_lem)
  then have c: "unat (push_bit 8 (ucast hi :: 16 word)) = 256 * unat hi"
    by (simp add: push_bit_eq_mult b)
  have "unat (push_bit 8 (ucast hi :: 16 word)) + unat (ucast lo :: 16 word) < 2 ^ LENGTH(16)"
    using unat_lt_256[of hi] unat_lt_256[of lo] by (simp add: a c)
  then have "unat (push_bit 8 (ucast hi :: 16 word) + ucast lo) =
      unat (push_bit 8 (ucast hi :: 16 word)) + unat (ucast lo :: 16 word)"
    by (simp only: unat_add_lem)
  then show ?thesis by (simp add: le_u16_add a c)
qed

lemma pairs_length: "length (pairs xs) = length xs div 2"
  by (induction xs rule: pairs.induct) simp_all

lemma pairs_nth:
  "2 * i + 1 < length xs \<Longrightarrow> pairs xs ! i = le_u16 (xs ! (2 * i)) (xs ! (2 * i + 1))"
proof (induction xs arbitrary: i rule: pairs.induct)
  case (1 low high rest)
  then show ?case by (cases i) simp_all
qed simp_all

lemma rows_setitem_seen:
  assumes ro: "rows_of h p = Some rows" and w: "rows_setitem h p i j v = Some h'"
  shows "\<exists>rows'. rows_of h' p = Some rows' \<and> rows' ! i ! j = v"
proof -
  from ro obtain as where p: "p < length h" and hp: "h ! p = RefList as"
    and ra: "rows_at h as = Some rows"
    by (auto simp: rows_of_Some)
  from w p hp obtain xs where i: "i < length as" and ai: "as ! i < length h"
    and hx: "h ! (as ! i) = IntList xs" and j: "j < length xs"
    and h': "h' = h[as ! i := IntList (xs[j := v])]"
    by (auto simp: rows_setitem_def lookup_def split: if_splits obj.splits option.splits)
  have ne: "as ! i \<noteq> p" using hp hx by auto
  let ?rows' = "map (\<lambda>a. if a = as ! i then xs[j := v] else the (row_of h a)) as"
  from ra have la: "list_all2 (\<lambda>a r. row_of h a = Some r) as rows"
    by (simp add: rows_at_list_all2)
  have "list_all2 (\<lambda>a r. row_of h' a = Some r) as ?rows'"
    unfolding list_all2_conv_all_nth
  proof (intro conjI allI impI)
    show "length as = length ?rows'" by simp
  next
    fix k
    assume k: "k < length as"
    with la have rk: "row_of h (as ! k) = Some (rows ! k)"
      by (simp add: list_all2_conv_all_nth)
    show "row_of h' (as ! k) = Some (?rows' ! k)"
    proof (cases "as ! k = as ! i")
      case True
      then show ?thesis using k ai h' by (simp add: row_of_Some)
    next
      case False
      then have "row_of h' (as ! k) = row_of h (as ! k)"
        using h' by (simp add: row_of_def lookup_def)
      then show ?thesis using k False rk by simp
    qed
  qed
  then have "rows_at h' as = Some ?rows'" by (simp add: rows_at_list_all2)
  moreover have "p < length h'" "h' ! p = RefList as" using p hp ne h' by simp_all
  ultimately have "rows_of h' p = Some ?rows'" by (simp add: rows_of_Some)
  moreover have "?rows' ! i ! j = v" using i j by simp
  ultimately show ?thesis by blast
qed

subsection \<open>The example states, evaluated\<close>

lemma zeros_eval:
  "zeros cpython64 2 = Inr [0, 0]"
  "zeros cpython64 1 = Inr [0]"
  "zeros cpython64 (- 1) = Inr []"
  "zeros cpython64 (- 1180591620717411303424) = Inl OverflowError"
  by (simp_all add: zeros_def cpython64_def numeral_2_eq_2)

lemma pod_a_eval:
  "pod_a = \<lparr>heap = [RefList [1], IntList [0, 0]], scale_factor = 100,
      systems = [\<lparr>system_name = ''Pod-A'', channel_count = 2, client = None\<rparr>],
      reconnect_task = None, pressures = 0\<rparr>"
  by (simp add: pod_a_def addSystem_def addSystem_inner_def zeros_eval PieZense_init_def
      alloc_def list_append_def lookup_def)

lemma two_pods_eval:
  "two_pods = \<lparr>heap = [RefList [1, 2], IntList [0, 0], IntList [0]], scale_factor = 100,
      systems = [\<lparr>system_name = ''Pod-A'', channel_count = 2, client = None\<rparr>,
                 \<lparr>system_name = ''Pod-B'', channel_count = 1, client = None\<rparr>],
      reconnect_task = None, pressures = 0\<rparr>"
  by (simp add: two_pods_def pod_a_eval addSystem_def addSystem_inner_def zeros_eval
      alloc_def list_append_def lookup_def)

lemma linked_pods_eval:
  "linked_pods = \<lparr>heap = [RefList [1, 2], IntList [0, 0], IntList [0]], scale_factor = 100,
      systems = [\<lparr>system_name = ''Pod-A'', channel_count = 2, client = Some \<lparr>is_connected = True\<rparr>\<rparr>,
                 \<lparr>system_name = ''Pod-B'', channel_count = 1, client = Some \<lparr>is_connected = True\<rparr>\<rparr>],
      reconnect_task = None, pressures = 0\<rparr>"
  by (simp add: linked_pods_def two_pods_eval connect_system_def friendly_def)

lemma pod_a_written_eval:
  "pod_a_written = \<lparr>heap = [RefList [1], IntList [997, 0]], scale_factor = 100,
      systems = [\<lparr>system_name = ''Pod-A'', channel_count = 2, client = None\<rparr>],
      reconnect_task = None, pressures = 0\<rparr>"
  by (simp add: pod_a_written_def pod_a_eval rows_setitem_def getPressureReadings_def lookup_def)

lemma neg_pod_eval:
  "neg_pod = \<lparr>heap = [RefList [1], IntList []], scale_factor = 1,
      systems = [\<lparr>system_name = ''Pod-A'', channel_count = - 1, client = None\<rparr>],
      reconnect_task = None, pressures = 0\<rparr>"
  by (simp add: neg_pod_def addSystem_def addSystem_inner_def zeros_eval PieZense_init_def
      alloc_def list_append_def lookup_def)

lemma big_pod_eval:
  "big_pod = (Inl OverflowError,
      \<lparr>heap = [RefList []], scale_factor = 1,
       systems = [\<lparr>system_name = ''Big'', channel_count = - 1180591620717411303424,
                   client = None\<rparr>],
       reconnect_task = None, pressures = 0\<rparr>)"
  by (simp add: big_pod_def addSystem_def addSystem_inner_def zeros_eval PieZense_init_def
      alloc_def)

section \<open>The claims\<close>

subsection \<open>C1: the five steps of a mode change\<close>

text \<open>
  Claim C1 says that \<^verbatim>\<open>setMode\<close> clears all forwarding, sends every \<open>reset_config\<close>
  entry, waits, installs every forwarding entry and sends every \<open>final_config\<close>
  entry, in this order, whatever fails on the way. The docstring of \<^verbatim>\<open>setMode\<close>
  lists the same five steps. The body is \<^verbatim>\<open>pass\<close>: for every mode and every state
  it makes no call and no wait, which is never the five steps (they begin with the
  clearing of the forwarding), raises nothing and leaves the state as it was.
\<close>

theorem setMode_makes_no_step:
  "fst (setMode m st) = [] \<and> fst (setMode m st) \<noteq> five_steps m
   \<and> raised (snd (setMode m st)) = None \<and> after (snd (setMode m st)) = st"
  by (simp add: setMode_def five_steps_def pass_def)

theorem setMode_makes_no_step_witness:
  "fst (setMode example_mode two_pods) = []
   \<and> fst (setMode example_mode two_pods) \<noteq> five_steps example_mode
   \<and> after (snd (setMode example_mode two_pods)) = two_pods"
  using setMode_makes_no_step[of example_mode two_pods] by blast

subsection \<open>C2: \<^verbatim>\<open>connect\<close> and its caller\<close>

text \<open>
  Claim C2 says that \<^verbatim>\<open>connect()\<close> returns to its caller once the connection process
  is started. The source runs the reconnect loop to its end inside \<^verbatim>\<open>connect\<close>, and
  the loop has no end: whatever the transport answers and whatever the state,
  \<^verbatim>\<open>connect\<close> never returns normally (it can only leave by an exception of the
  transport), and where no device is ever found it does not return at all.
\<close>

theorem connect_never_returns:
  "\<not> (\<exists>out. connect env st = Some out \<and> raised out = None) \<and> connect quiet pod_a = None"
proof
  show "\<not> (\<exists>out. connect env st = Some out \<and> raised out = None)"
    using connect_loop_raises[of env 0 st] by (auto simp: connect_def split: option.splits)
  have "connect_loop quiet 0 pod_a = None"
    using connect_loop_quiet[of quiet 0 pod_a] by (cases "connect_loop quiet 0 pod_a") auto
  then show "connect quiet pod_a = None" by (simp add: connect_def)
qed

theorem connect_never_returns_witness:
  "\<not> (\<exists>out. connect friendly linked_pods = Some out \<and> raised out = None)
   \<and> connect quiet pod_a = None"
  using connect_never_returns[of friendly linked_pods] by simp

subsection \<open>C3: decoding a complete frame\<close>

text \<open>
  Claim C3: for a device of \<open>count\<close> channels and a payload of at least
  \<open>2 * count\<close> bytes, decode gives \<open>count\<close> readings, reading \<open>i\<close> being the
  unsigned 16-bit number whose low byte is byte \<open>2 * i\<close> and whose high byte is byte
  \<open>2 * i + 1\<close> of the payload; no condition is signalled; bytes after the first
  \<open>2 * count\<close> change nothing; and the two-channel payload \<open>E5 03 F4 01\<close> decodes to
  \<open>[997, 500]\<close>.
\<close>

theorem decode_well_formed:
  assumes "count * 2 \<le> length payload"
  shows "length (readings (decode count payload)) = count
   \<and> (\<forall>i<count. unat (readings (decode count payload) ! i) =
         unat (payload ! (2 * i)) + 256 * unat (payload ! (2 * i + 1)))
   \<and> signal (decode count payload) = None
   \<and> decode count (payload @ extra) = decode count payload
   \<and> decode 2 [0xE5, 0x03, 0xF4, 0x01] = \<lparr>readings = [997, 500], signal = None\<rparr>"
proof (intro conjI allI impI)
  show "length (readings (decode count payload)) = count"
    using assms by (simp add: decode_def pairs_length min_def)
  show "signal (decode count payload) = None" using assms by (simp add: decode_def)
  show "decode count (payload @ extra) = decode count payload"
    using assms by (simp add: decode_def)
  show "decode 2 [0xE5, 0x03, 0xF4, 0x01] = \<lparr>readings = [997, 500], signal = None\<rparr>"
    by (simp add: decode_def le_u16_def)
next
  fix i
  assume i: "i < count"
  with assms have "2 * i + 1 < length (take (count * 2) payload)" by simp
  then have "pairs (take (count * 2) payload) ! i =
      le_u16 (take (count * 2) payload ! (2 * i)) (take (count * 2) payload ! (2 * i + 1))"
    by (rule pairs_nth)
  also have "\<dots> = le_u16 (payload ! (2 * i)) (payload ! (2 * i + 1))" using i by simp
  finally show "unat (readings (decode count payload) ! i) =
      unat (payload ! (2 * i)) + 256 * unat (payload ! (2 * i + 1))"
    by (simp add: decode_def le_u16_unat)
qed

theorem decode_well_formed_witness:
  "2 * 2 \<le> length [0xE5, 0x03, 0xF4, 0x01, 0xAA :: 8 word]
   \<and> length (readings (decode 2 [0xE5, 0x03, 0xF4, 0x01, 0xAA])) = 2
   \<and> signal (decode 2 [0xE5, 0x03, 0xF4, 0x01, 0xAA]) = None
   \<and> decode 2 ([0xE5, 0x03, 0xF4, 0x01] @ [0xAA]) = decode 2 [0xE5, 0x03, 0xF4, 0x01]"
proof -
  have h: "2 * 2 \<le> length [0xE5, 0x03, 0xF4, 0x01, 0xAA :: 8 word]" by simp
  have h': "2 * 2 \<le> length [0xE5, 0x03, 0xF4, 0x01 :: 8 word]" by simp
  show ?thesis
    using h decode_well_formed[OF h, of "[]"] decode_well_formed[OF h', of "[0xAA]"] by simp
qed

subsection \<open>C4: decoding a short frame\<close>

text \<open>
  Claim C4: for a payload shorter than \<open>2 * count\<close> bytes, decode gives exactly one
  reading per complete 2-byte pair of the payload, which are fewer than \<open>count\<close> (no
  channel is made up); every reading comes from two bytes inside the payload; and
  the \<open>TruncatedFrame\<close> condition is signalled.
\<close>

theorem decode_truncated:
  assumes "length payload < count * 2"
  shows "length (readings (decode count payload)) = length payload div 2
   \<and> length (readings (decode count payload)) < count
   \<and> (\<forall>i < length (readings (decode count payload)).
         2 * i + 1 < length payload
         \<and> unat (readings (decode count payload) ! i) =
             unat (payload ! (2 * i)) + 256 * unat (payload ! (2 * i + 1)))
   \<and> signal (decode count payload) = Some TruncatedFrame"
proof -
  have tk: "take (count * 2) payload = payload" using assms by simp
  have len: "length (readings (decode count payload)) = length payload div 2"
    by (simp add: decode_def tk pairs_length)
  have "\<forall>i < length payload div 2.
         2 * i + 1 < length payload
         \<and> unat (pairs payload ! i) = unat (payload ! (2 * i)) + 256 * unat (payload ! (2 * i + 1))"
  proof (intro allI impI)
    fix i
    assume "i < length payload div 2"
    then have b: "2 * i + 1 < length payload" by arith
    then show "2 * i + 1 < length payload
         \<and> unat (pairs payload ! i) = unat (payload ! (2 * i)) + 256 * unat (payload ! (2 * i + 1))"
      by (simp add: pairs_nth le_u16_unat)
  qed
  moreover have "length payload div 2 < count" using assms by arith
  ultimately show ?thesis using assms by (simp add: len) (simp add: decode_def tk pairs_length)
qed

theorem decode_truncated_witness:
  "length [0xE5, 0x03, 0xF4, 0x01, 0x07 :: 8 word] < 3 * 2
   \<and> readings (decode 3 [0xE5, 0x03, 0xF4, 0x01, 0x07]) = [997, 500]
   \<and> length (readings (decode 3 [0xE5, 0x03, 0xF4, 0x01, 0x07])) < 3
   \<and> signal (decode 3 [0xE5, 0x03, 0xF4, 0x01, 0x07]) = Some TruncatedFrame"
proof -
  have h: "length [0xE5, 0x03, 0xF4, 0x01, 0x07 :: 8 word] < 3 * 2" by simp
  have r: "readings (decode 3 [0xE5, 0x03, 0xF4, 0x01, 0x07]) = [997, 500]"
    by (simp add: decode_def le_u16_def)
  show ?thesis using h r decode_truncated[OF h] by simp
qed

subsection \<open>C5: a forwarding rule that closes a cycle\<close>




subsection \<open>C6: the all-connected query\<close>

text \<open>
  Claim C6: \<^verbatim>\<open>isEverythingConnected()\<close> is true if and only if every registered
  system is connected at the call, that is, has a client whose \<^verbatim>\<open>is_connected\<close> is
  true.
\<close>

theorem isEverythingConnected_iff:
  "isEverythingConnected st \<longleftrightarrow>
     (\<forall>s \<in> set (systems st). \<exists>c. client s = Some c \<and> is_connected c)"
  by (auto simp: isEverythingConnected_def list_all_iff split: option.splits)

theorem isEverythingConnected_iff_witness:
  "isEverythingConnected linked_pods
   \<and> map client (systems linked_pods) =
       [Some \<lparr>is_connected = True\<rparr>, Some \<lparr>is_connected = True\<rparr>]
   \<and> \<not> isEverythingConnected two_pods
   \<and> map client (systems two_pods) = [None, None]"
  using isEverythingConnected_iff[of linked_pods] isEverythingConnected_iff[of two_pods]
  by (simp add: linked_pods_eval two_pods_eval)

subsection \<open>C7: the scale factor\<close>

text \<open>
  Claim C7 says that the readings handed to callers are the stored raw values
  multiplied by the scale factor, as the docstring of the constructor announces
  (\<open>scaling factor for pressure readings\<close>). \<^verbatim>\<open>getPressureReadings\<close> hands out the
  stored list itself: with scale factor 100 and the stored row \<open>[997, 0]\<close> the caller
  reads \<open>[997, 0]\<close>, where the scaled row is \<open>[99700, 0]\<close>.
\<close>

theorem readings_not_scaled:
  "scale_factor pod_a_written = 100
   \<and> rows_of (heap pod_a_written) (getPressureReadings pod_a_written) = Some [[997, 0]]
   \<and> scaled_rows (scale_factor pod_a_written) [[997, 0]] = [[99700, 0]]
   \<and> map (map real_of_int) [[997, 0]] \<noteq> scaled_rows (scale_factor pod_a_written) [[997, 0]]"
  by (simp add: pod_a_written_eval getPressureReadings_def rows_of_def row_of_def lookup_def
      scaled_rows_def)

subsection \<open>C8: the list of readings and its caller\<close>

text \<open>
  Claim C8 asks for an independent copy. The caller of \<^verbatim>\<open>getPressureReadings\<close> on a
  fresh library receives the empty list; after a registration the list it received
  holds the row \<open>[0, 0]\<close>; and its write of 997 through the reference it received
  turns the stored row \<open>[0, 0]\<close> into \<open>[997, 0]\<close>.
\<close>

theorem reading_reference_changes:
  "rows_of (heap (PieZense_init 100)) (getPressureReadings (PieZense_init 100)) = Some []
   \<and> rows_of (heap (snd (addSystem cpython64 ''Pod-A'' 2 (PieZense_init 100))))
        (getPressureReadings (PieZense_init 100)) = Some [[0, 0]]
   \<and> rows_setitem (heap pod_a) (getPressureReadings pod_a) 0 0 997 =
        Some [RefList [1], IntList [997, 0]]
   \<and> rows_of (heap pod_a) (pressures pod_a) = Some [[0, 0]]
   \<and> rows_of [RefList [1], IntList [997, 0]] (pressures pod_a) = Some [[997, 0]]"
proof -
  have a: "snd (addSystem cpython64 ''Pod-A'' 2 (PieZense_init 100)) = pod_a"
    by (simp add: pod_a_def)
  have b: "PieZense_init 100 =
      \<lparr>heap = [RefList []], scale_factor = 100, systems = [], reconnect_task = None,
       pressures = 0\<rparr>"
    by (simp add: PieZense_init_def alloc_def)
  show ?thesis
    unfolding a
    by (simp add: b pod_a_eval getPressureReadings_def rows_of_def row_of_def lookup_def
        rows_setitem_def)
qed

text \<open>
  Claim C8 as the source has it: \<^verbatim>\<open>getPressureReadings\<close> returns the store's own list
  object, the same one at every call. A registration made after the call, when it
  returns, shows through the reference the caller holds, as one more row (a
  registration that raises leaves the list as it was); and a write that the caller
  makes through the reference is a write to the store.
\<close>

theorem readings_are_shared:
  assumes "rows_of (heap st) (pressures st) = Some rows"
  shows "getPressureReadings st = pressures st
   \<and> getPressureReadings (snd (addSystem mc name c st)) = getPressureReadings st
   \<and> (\<not> isl (fst (addSystem mc name c st)) \<longrightarrow>
         rows_of (heap (snd (addSystem mc name c st))) (getPressureReadings st) =
           Some (rows @ [replicate (nat c) 0]))
   \<and> (isl (fst (addSystem mc name c st)) \<longrightarrow>
         rows_of (heap (snd (addSystem mc name c st))) (getPressureReadings st) = Some rows)
   \<and> (\<forall>h'. rows_setitem (heap st) (getPressureReadings st) i j v = Some h' \<longrightarrow>
         (\<exists>rows'. rows_of h' (pressures st) = Some rows' \<and> rows' ! i ! j = v))"
  using addSystem_rows[OF assms, of mc name c] addSystem_raised_heap[of mc name c st] assms
    rows_setitem_seen[OF assms, of i j v]
  by (simp add: getPressureReadings_def addSystem_fields)

theorem readings_are_shared_witness:
  "rows_of (heap pod_a) (pressures pod_a) = Some [[0, 0]]
   \<and> fst (addSystem cpython64 ''Pod-B'' 1 pod_a) = Inr 1
   \<and> rows_of (heap (snd (addSystem cpython64 ''Pod-B'' 1 pod_a))) (getPressureReadings pod_a) =
       Some [[0, 0], [0]]
   \<and> (\<exists>rows'. rows_of [RefList [1], IntList [997, 0]] (pressures pod_a) = Some rows'
         \<and> rows' ! 0 ! 0 = 997)"
proof -
  have h: "rows_of (heap pod_a) (pressures pod_a) = Some [[0, 0]]"
    by (simp add: pod_a_eval rows_of_def row_of_def lookup_def)
  have w: "rows_setitem (heap pod_a) (getPressureReadings pod_a) 0 0 997 =
      Some [RefList [1], IntList [997, 0]]"
    by (simp add: pod_a_eval getPressureReadings_def rows_setitem_def lookup_def)
  have r: "fst (addSystem cpython64 ''Pod-B'' 1 pod_a) = Inr 1"
    by (simp add: addSystem_result zeros_eval pod_a_eval)
  show ?thesis
    using h w r readings_are_shared[OF h, of cpython64 "''Pod-B''" 1 0 0 997]
    by (simp add: getPressureReadings_def)
qed

subsection \<open>C9: no registered system\<close>

text \<open>
  Claim C9: with no system registered, \<^verbatim>\<open>isEverythingConnected()\<close> is true.
\<close>

theorem isEverythingConnected_empty: "systems st = [] \<Longrightarrow> isEverythingConnected st"
  by (simp add: isEverythingConnected_def)

theorem isEverythingConnected_empty_witness:
  "systems (PieZense_init 1) = [] \<and> isEverythingConnected (PieZense_init 1)"
proof -
  have h: "systems (PieZense_init 1) = []" by (simp add: PieZense_init_def alloc_def)
  show ?thesis using h isEverythingConnected_empty[OF h] by simp
qed

subsection \<open>C10: registration and the rows of readings\<close>

text \<open>
  Claim C10 asks that the \<open>i\<close>-th call returns \<open>i\<close> and that row \<open>i\<close> has as many
  entries as the declared channel count of system \<open>i\<close>. A count of \<open>-1\<close> is stored
  as declared, and its row is \<^verbatim>\<open>[0]*(-1)\<close>, the empty list. A count of \<open>-2^70\<close> is
  stored too, and then \<^verbatim>\<open>[0]*channel_count\<close> raises \<open>OverflowError\<close>: the first call
  returns nothing, and one system is registered with no row of readings.
\<close>

theorem negative_count_row:
  "rows_of (heap neg_pod) (getPressureReadings neg_pod) = Some [[]]
   \<and> channel_count (systems neg_pod ! 0) = - 1
   \<and> int (length ([] :: int list)) \<noteq> channel_count (systems neg_pod ! 0)
   \<and> fst big_pod = Inl OverflowError
   \<and> length (systems (snd big_pod)) = 1
   \<and> rows_of (heap (snd big_pod)) (getPressureReadings (snd big_pod)) = Some []"
  by (simp add: neg_pod_eval big_pod_eval getPressureReadings_def rows_of_def row_of_def
      lookup_def)

text \<open>
  Claim C10 as the source has it. A call of \<^verbatim>\<open>addSystem\<close> returns exactly when the
  channel count is an index-sized integer and, if positive, no longer than a list
  the allocator grants. On a fresh library, when every call of a run of
  registrations returns, the \<open>i\<close>-th call (counting from 0) returns \<open>i\<close>; afterwards
  the systems carry the declared channel counts and the list of readings has one
  row per registration, row \<open>i\<close> being zeros, as many as the channel count of system
  \<open>i\<close> when it is not negative and none when it is. This holds of the fresh
  library, and it is preserved by every operation other than a call of
  \<^verbatim>\<open>addSystem\<close> that raises.
\<close>

theorem registry_rows:
  "(\<not> isl (fst (addSystem mc name c st)) \<longleftrightarrow>
      - ssize_max mc - 1 \<le> c \<and> c \<le> ssize_max mc \<and> (0 < c \<longrightarrow> nat c \<le> alloc_max mc))
   \<and> (list_all (\<lambda>r. \<not> isl r) (fst (addSystems mc regs (PieZense_init sf))) \<longrightarrow>
        fst (addSystems mc regs (PieZense_init sf)) = map (\<lambda>i. Inr (int i)) [0..<length regs]
        \<and> map channel_count (systems (snd (addSystems mc regs (PieZense_init sf)))) =
            map snd regs
        \<and> rows_of (heap (snd (addSystems mc regs (PieZense_init sf))))
             (getPressureReadings (snd (addSystems mc regs (PieZense_init sf)))) =
            Some (map (\<lambda>(name, c). replicate (nat c) 0) regs))
   \<and> store_inv (PieZense_init sf)
   \<and> (store_inv st
          \<and> (fst (exec mc op st) = None \<or> (\<forall>name c. op \<noteq> Op_addSystem name c)) \<longrightarrow>
        store_inv (snd (exec mc op st)))"
proof -
  have init: "rows_of (heap (PieZense_init sf)) (pressures (PieZense_init sf)) = Some []"
    by (simp add: PieZense_init_def alloc_def rows_of_def lookup_def)
  have sys: "systems (PieZense_init sf) = []" by (simp add: PieZense_init_def alloc_def)
  have inv0: "store_inv (PieZense_init sf)" using init by (simp add: store_inv_def sys)
  have ret: "\<not> isl (fst (addSystem mc name c st)) \<longleftrightarrow>
      - ssize_max mc - 1 \<le> c \<and> c \<le> ssize_max mc \<and> (0 < c \<longrightarrow> nat c \<le> alloc_max mc)"
    by (simp only: addSystem_returns zeros_returns)
  have run: "list_all (\<lambda>r. \<not> isl r) (fst (addSystems mc regs (PieZense_init sf))) \<longrightarrow>
        fst (addSystems mc regs (PieZense_init sf)) = map (\<lambda>i. Inr (int i)) [0..<length regs]
        \<and> map channel_count (systems (snd (addSystems mc regs (PieZense_init sf)))) =
            map snd regs
        \<and> rows_of (heap (snd (addSystems mc regs (PieZense_init sf))))
             (getPressureReadings (snd (addSystems mc regs (PieZense_init sf)))) =
            Some (map (\<lambda>(name, c). replicate (nat c) 0) regs)"
    using addSystems_run[OF init, of mc regs] by (simp add: sys getPressureReadings_def)
  have pres: "store_inv st
          \<and> (fst (exec mc op st) = None \<or> (\<forall>name c. op \<noteq> Op_addSystem name c)) \<longrightarrow>
        store_inv (snd (exec mc op st))"
    using store_inv_exec[of st mc op] by blast
  from ret run inv0 pres show ?thesis by (intro conjI)
qed

theorem registry_rows_witness:
  "store_inv pod_a
   \<and> fst (exec cpython64 (Op_addSystem ''Pod-B'' 1) pod_a) = None
   \<and> store_inv (snd (exec cpython64 (Op_addSystem ''Pod-B'' 1) pod_a))
   \<and> fst (addSystems cpython64 [(''Pod-A'', 2), (''Pod-B'', 1)] (PieZense_init 100)) =
       [Inr 0, Inr 1]
   \<and> rows_of (heap (snd (addSystems cpython64 [(''Pod-A'', 2), (''Pod-B'', 1)] (PieZense_init 100))))
        (getPressureReadings
          (snd (addSystems cpython64 [(''Pod-A'', 2), (''Pod-B'', 1)] (PieZense_init 100)))) =
       Some [[0, 0], [0]]"
proof -
  have h: "store_inv pod_a"
    by (simp add: store_inv_def pod_a_eval rows_of_def row_of_def lookup_def numeral_2_eq_2)
  have e: "fst (exec cpython64 (Op_addSystem ''Pod-B'' 1) pod_a) = None"
    by (simp add: addSystem_def addSystem_inner_def zeros_eval alloc_def Let_def)
  have a1: "addSystem cpython64 ''Pod-A'' 2 (PieZense_init 100) = (Inr 0, pod_a)"
    using addSystem_result[of cpython64 "''Pod-A''" 2 "PieZense_init 100"]
    by (simp add: pod_a_def prod_eq_iff zeros_eval PieZense_init_def alloc_def)
  have a2: "addSystem cpython64 ''Pod-B'' 1 pod_a = (Inr 1, two_pods)"
    using addSystem_result[of cpython64 "''Pod-B''" 1 pod_a]
    by (simp add: two_pods_def prod_eq_iff zeros_eval pod_a_eval)
  have r: "fst (addSystems cpython64 [(''Pod-A'', 2), (''Pod-B'', 1)] (PieZense_init 100)) =
      [Inr 0, Inr 1]"
    by (simp add: a1 a2)
  show ?thesis
    using h e r
      registry_rows[of cpython64 "''Pod-B''" 1 pod_a "[(''Pod-A'', 2), (''Pod-B'', 1)]" 100
        "Op_addSystem ''Pod-B'' 1"]
    by (simp add: numeral_2_eq_2)
qed

end
